theory Spec2Isabelle
  imports Main
begin

section \<open>Errors\<close>

text \<open>
  A Go \<open>error\<close> value is modelled by the datatype below; the interface value \<open>nil\<close> is
  \<open>None\<close> of \<open>error option\<close>. The constructors are the kinds of error ebs.go sees:
  the provider's \<open>awserr.Error\<close> (code and message), the plain message errors made by
  \<open>errors.New\<close> and \<open>fmt.Errorf\<close>, the errors of the operating system (\<open>*exec.ExitError\<close>,
  \<open>*os.PathError\<close>), and an error annotated with a message by \<open>errors.Wrap\<close>.
\<close>

datatype error =
    AwsError string string
  | ErrorString string
  | SysError string
  | WithMessage error string

text \<open>
  \<open>errors.Wrap\<close> belongs to github.com/pkg/errors, a dependency that is not part of
  src/. It is modelled by its documented contract: it annotates \<open>err\<close> with the message,
  and "if err is nil, Wrap returns nil".
\<close>

definition Wrap :: "error option \<Rightarrow> string \<Rightarrow> error option" where
  "Wrap err message = (case err of None \<Rightarrow> None | Some e \<Rightarrow> Some (WithMessage e message))"

text \<open>The type assertion \<open>err.(awserr.Error)\<close> of volumeFromID.\<close>

fun is_awserr :: "error \<Rightarrow> bool" where
  "is_awserr (AwsError code msg) = True"
| "is_awserr _ = False"

section \<open>Provider data\<close>

text \<open>
  \<open>ec2.Volume\<close> and \<open>ec2.VolumeAttachment\<close> with the fields ebs.go reads. The SDK types
  these fields \<open>*string\<close>; the provider's responses populate them, and they are modelled
  as strings (a nil field is outside the model). The attachment state is the SDK's
  string enumeration; \<open>ec2.VolumeAttachmentStateAttached\<close> is the string "attached".
\<close>

record VolumeAttachment =
  Device :: string
  InstanceId :: string
  State :: string

record Volume =
  VolumeId :: string
  Attachments :: "VolumeAttachment list"

definition VolumeAttachmentStateAttached :: string where
  "VolumeAttachmentStateAttached = ''attached''"

record AttachVolumeInput =
  in_Device :: string
  in_InstanceId :: string
  in_VolumeId :: string

record DescribeVolumesInput =
  Filters :: "(string \<times> string list) list"
  VolumeIds :: "string list"

section \<open>The outside world\<close>

text \<open>
  Every call that leaves the process is an event, recorded with its arguments and its
  result: the two provider calls, \<open>os.Stat\<close>, \<open>time.Sleep\<close>, and the two ways ebs.go runs
  a command (\<open>Run\<close>, which gives the exit error, and \<open>Output\<close>, which also gives the
  standard output). The history of a run is the list of its events, oldest first.
  Log lines are not modelled.
\<close>

datatype event =
    AttachVolumeCall AttachVolumeInput "error option"
  | DescribeVolumesCall DescribeVolumesInput "error + Volume list"
  | StatCall string "error option"
  | SleepCall int
  | RunCall "string list" "error option"
  | OutputCall "string list" string "error option"

text \<open>
  The world answers each call from the history so far and the call's arguments, so an
  answer may depend on everything that happened before (an attach request accepted
  earlier, a device formatted earlier, the time slept).
\<close>

record world =
  ec2_AttachVolume :: "event list \<Rightarrow> AttachVolumeInput \<Rightarrow> error option"
  ec2_DescribeVolumes :: "event list \<Rightarrow> DescribeVolumesInput \<Rightarrow> error + Volume list"
  os_Stat :: "event list \<Rightarrow> string \<Rightarrow> error option"
  exec_Run :: "event list \<Rightarrow> string list \<Rightarrow> error option"
  exec_Output :: "event list \<Rightarrow> string list \<Rightarrow> string \<times> error option"

section \<open>Strings\<close>

text \<open>\<open>strings.HasPrefix\<close> and \<open>strings.Contains\<close> on byte strings.\<close>

fun HasPrefix :: "string \<Rightarrow> string \<Rightarrow> bool" where
  "HasPrefix s [] = True"
| "HasPrefix [] (c # cs) = False"
| "HasPrefix (d # ds) (c # cs) = (d = c \<and> HasPrefix ds cs)"

fun Contains :: "string \<Rightarrow> string \<Rightarrow> bool" where
  "Contains [] substr = HasPrefix [] substr"
| "Contains (d # ds) substr = (HasPrefix (d # ds) substr \<or> Contains ds substr)"

section \<open>volumeFromID\<close>

text \<open>
  ebs.go, lines 18 to 47. Both branches of the type assertion return the error of the
  describe call as it is.
\<close>

definition volume_filter :: "string \<Rightarrow> string \<Rightarrow> DescribeVolumesInput" where
  "volume_filter volumeID az =
     \<lparr>Filters = [(''volume-id'', [volumeID]), (''availability-zone'', [az])], VolumeIds = []\<rparr>"

definition volumeFromID ::
  "world \<Rightarrow> string \<Rightarrow> string \<Rightarrow> event list \<Rightarrow> (error + Volume) \<times> event list" where
  "volumeFromID svc volumeID az tr =
     (let input = volume_filter volumeID az;
          result = ec2_DescribeVolumes svc tr input;
          tr1 = tr @ [DescribeVolumesCall input result]
      in case result of
           Inl err \<Rightarrow> (if is_awserr err then (Inl err, tr1) else (Inl err, tr1))
         | Inr volumes \<Rightarrow>
             (case volumes of
                [] \<Rightarrow> (Inl (ErrorString (''cannot find volume with volume-id: '' @ volumeID)), tr1)
              | v # _ \<Rightarrow> (Inr v, tr1)))"

section \<open>ensureVolumeInited\<close>

text \<open>ebs.go, lines 134 to 152: probe with blkid, format with mkfs only if the probe fails.\<close>

definition blkid_cmd :: "string \<Rightarrow> string list" where
  "blkid_cmd blockDevice = [''sudo'', ''/usr/sbin/blkid'', blockDevice]"

definition mkfs_cmd :: "string \<Rightarrow> string \<Rightarrow> string list" where
  "mkfs_cmd fileSystemFormatType blockDevice =
     [''sudo'', ''/usr/sbin/mkfs.'' @ fileSystemFormatType, blockDevice]"

definition ensureVolumeInited ::
  "world \<Rightarrow> string \<Rightarrow> string \<Rightarrow> event list \<Rightarrow> error option \<times> event list" where
  "ensureVolumeInited w blockDevice fileSystemFormatType tr =
     (let probe = exec_Run w tr (blkid_cmd blockDevice);
          tr1 = tr @ [RunCall (blkid_cmd blockDevice) probe]
      in if probe = None then (None, tr1)
         else
           (let cmd = mkfs_cmd fileSystemFormatType blockDevice;
                err = exec_Run w tr1 cmd;
                tr2 = tr1 @ [RunCall cmd err]
            in if err \<noteq> None
               then (Wrap err (''mkfs.'' @ fileSystemFormatType @ '' failed''), tr2)
               else (None, tr2)))"

section \<open>ensureVolumeMounted\<close>

text \<open>
  ebs.go, lines 154 to 184. The \<open>err\<close> of the two \<open>if err := cmd.Run()\<close> statements is
  local to each statement; the \<open>err\<close> declared with \<open>out\<close> at line 173 is the one in scope
  at lines 174 and 183, and it is the one wrapped there.
\<close>

definition mkdir_cmd :: "string \<Rightarrow> string list" where
  "mkdir_cmd mountPoint = [''sudo'', ''mkdir'', ''-p'', mountPoint]"

definition mount_cmd :: "string \<Rightarrow> string \<Rightarrow> string list" where
  "mount_cmd blockDevice mountPoint = [''sudo'', ''mount'', blockDevice, mountPoint]"

definition cannot_verify :: string where
  "cannot_verify = ''cannot mount or verify mount. cowardly refusing to continue''"

definition ensureVolumeMounted ::
  "world \<Rightarrow> string \<Rightarrow> string \<Rightarrow> event list \<Rightarrow> error option \<times> event list" where
  "ensureVolumeMounted w blockDevice mountPoint tr =
     (let err0 = exec_Run w tr (mkdir_cmd mountPoint);
          tr1 = tr @ [RunCall (mkdir_cmd mountPoint) err0]
      in if err0 \<noteq> None then (Wrap err0 ''mountpoint creation failed'', tr1)
         else
           (let err1 = exec_Run w tr1 (mount_cmd blockDevice mountPoint);
                tr2 = tr1 @ [RunCall (mount_cmd blockDevice mountPoint) err1]
            in if err1 = None then (None, tr2)
               else
                 (let (out, err) = exec_Output w tr2 [''mount''];
                      tr3 = tr2 @ [OutputCall [''mount''] out err]
                  in if err \<noteq> None then (Wrap err cannot_verify, tr3)
                     else if Contains out (blockDevice @ '' on '' @ mountPoint)
                     then (None, tr3)
                     else (Wrap err cannot_verify, tr3))))"

section \<open>Backoff\<close>

text \<open>
  \<open>time.Duration\<close> counts nanoseconds; \<open>time.Second\<close> is 10^9 of them.
\<close>

definition Second :: int where
  "Second = 1000000000"

text \<open>
  Modelled from the spec: \<open>backoff.Backoff\<close> (github.com/jpillora/backoff) is a
  dependency that is not part of src/. The spec describes it as exponential backoff
  with a minimum, a maximum and a multiplicative factor: the duration for attempt \<open>n\<close>
  is the minimum times the factor to the power \<open>n\<close>, kept between the minimum and the
  maximum; \<open>Duration\<close> returns the duration for the current attempt and counts the
  attempt. attachVolume sets \<open>Jitter\<close> to false, so the schedule is deterministic; the
  jittered schedule is not modelled. The library computes in float64, which is exact
  for the values of this program (5 * 10^9 times a power of two).
\<close>

record Backoff =
  Min_dur :: int
  Max_dur :: int
  Factor :: int
  attempt :: nat

definition ForAttempt :: "Backoff \<Rightarrow> nat \<Rightarrow> int" where
  "ForAttempt bk n =
     (let dur = Min_dur bk * Factor bk ^ n
      in if dur < Min_dur bk then Min_dur bk
         else if Max_dur bk < dur then Max_dur bk
         else dur)"

definition Duration :: "Backoff \<Rightarrow> int \<times> Backoff" where
  "Duration bk = (ForAttempt bk (attempt bk), bk\<lparr>attempt := attempt bk + 1\<rparr>)"

section \<open>attachVolume\<close>

text \<open>
  The variables of the retry loop of attachVolume (ebs.go, lines 65 to 76), the history
  of the run, and \<open>recorded\<close>: the values assigned to \<open>lastError\<close>, in the order of the
  assignments. \<open>recorded\<close> is kept for the statements about the last error; nothing in
  the loop reads it.
\<close>

record attach_vars =
  attempts :: int
  backoff :: Backoff
  attachStarted :: bool
  attachSucceeded :: bool
  lastError :: "error option"
  recorded :: "error list"
  trace :: "event list"

text \<open>An assignment \<open>lastError = e\<close>.\<close>

definition set_lastError :: "error \<Rightarrow> attach_vars \<Rightarrow> attach_vars" where
  "set_lastError e s = s\<lparr>lastError := Some e, recorded := recorded s @ [e]\<rparr>"

text \<open>Lines 79 to 83: the sleep before every attempt but the first.\<close>

definition backoff_wait :: "attach_vars \<Rightarrow> attach_vars" where
  "backoff_wait s =
     (if attempts s \<noteq> 0
      then (let (duration, bk) = Duration (backoff s)
            in s\<lparr>backoff := bk, trace := trace s @ [SleepCall duration]\<rparr>)
      else s)"

text \<open>
  Lines 95 to 121: the confirmation poll. Each \<open>continue\<close> returns the variables as
  they are then; \<open>attachSucceeded\<close> is set only on the path that ends in \<open>break\<close>.
\<close>

definition confirm :: "world \<Rightarrow> string \<Rightarrow> Volume \<Rightarrow> attach_vars \<Rightarrow> attach_vars" where
  "confirm svc blockDevice volume s =
     (let input = \<lparr>Filters = [], VolumeIds = [VolumeId volume]\<rparr>;
          volumeDescs = ec2_DescribeVolumes svc (trace s) input;
          s1 = s\<lparr>trace := trace s @ [DescribeVolumesCall input volumeDescs]\<rparr>
      in case volumeDescs of
           Inl err \<Rightarrow> set_lastError err s1
         | Inr volumes \<Rightarrow>
             (case volumes of
                [] \<Rightarrow> s1
              | v # _ \<Rightarrow>
                  (case Attachments v of
                     [] \<Rightarrow> s1
                   | a # _ \<Rightarrow>
                       if State a = VolumeAttachmentStateAttached
                       then (let err = os_Stat svc (trace s1) blockDevice;
                                 s2 = s1\<lparr>trace := trace s1 @ [StatCall blockDevice err]\<rparr>
                             in case err of
                                  Some e \<Rightarrow> set_lastError e s2
                                | None \<Rightarrow> s2\<lparr>attachSucceeded := True\<rparr>)
                       else s1)))"

text \<open>Lines 77 to 121: one pass through the loop body.\<close>

definition attempt_body ::
  "world \<Rightarrow> string \<Rightarrow> AttachVolumeInput \<Rightarrow> Volume \<Rightarrow> attach_vars \<Rightarrow> attach_vars" where
  "attempt_body svc blockDevice input volume s =
     (let s1 = set_lastError (ErrorString ''Max attempts exceeded'') s;
          s2 = backoff_wait s1
      in if \<not> attachStarted s2
         then (let err = ec2_AttachVolume svc (trace s2) input;
                   s3 = s2\<lparr>trace := trace s2 @ [AttachVolumeCall input err]\<rparr>
               in case err of
                    Some e \<Rightarrow> set_lastError e s3
                  | None \<Rightarrow> confirm svc blockDevice volume (s3\<lparr>attachStarted := True\<rparr>))
         else confirm svc blockDevice volume s2)"

text \<open>
  Line 76: \<open>for attempts := 0; attempts < maxAttempts; attempts++\<close>. The loop is left
  by \<open>break\<close> exactly when the body has set \<open>attachSucceeded\<close>, and then \<open>attempts\<close> is not
  incremented. Both counters are Go \<open>int\<close>; \<open>attempts\<close> stays below \<open>maxAttempts\<close> when it is
  incremented, so it never wraps, and both are modelled as \<open>int\<close>.
\<close>

function attach_loop ::
  "world \<Rightarrow> string \<Rightarrow> AttachVolumeInput \<Rightarrow> Volume \<Rightarrow> int \<Rightarrow> attach_vars \<Rightarrow> attach_vars" where
  "attach_loop svc blockDevice input volume maxAttempts s =
     (if attempts s < maxAttempts
      then (let s1 = attempt_body svc blockDevice input volume s
            in if attachSucceeded s1 then s1
               else attach_loop svc blockDevice input volume maxAttempts
                      (s1\<lparr>attempts := attempts s + 1\<rparr>))
      else s)"
  by pat_completeness auto
termination
  by (relation "measure (\<lambda>(svc, blockDevice, input, volume, maxAttempts, s).
        nat (maxAttempts - attempts s))") auto

declare attach_loop.simps [simp del]

text \<open>Lines 59 to 74: the attach request, the backoff schedule and the initial variables.\<close>

definition attach_input :: "string \<Rightarrow> string \<Rightarrow> Volume \<Rightarrow> AttachVolumeInput" where
  "attach_input blockDevice instanceID volume =
     \<lparr>in_Device = blockDevice, in_InstanceId = instanceID, in_VolumeId = VolumeId volume\<rparr>"

definition attach_backoff :: Backoff where
  "attach_backoff = \<lparr>Min_dur = 5 * Second, Max_dur = 100 * Second, Factor = 2, attempt = 0\<rparr>"

definition attach_init :: "event list \<Rightarrow> attach_vars" where
  "attach_init tr =
     \<lparr>attempts = 0, backoff = attach_backoff, attachStarted = False,
      attachSucceeded = False, lastError = None, recorded = [], trace = tr\<rparr>"

text \<open>The variables when the loop of lines 76 to 122 is left.\<close>

definition attach_run ::
  "world \<Rightarrow> string \<Rightarrow> string \<Rightarrow> Volume \<Rightarrow> int \<Rightarrow> event list \<Rightarrow> attach_vars" where
  "attach_run svc blockDevice instanceID volume maxAttempts tr =
     attach_loop svc blockDevice (attach_input blockDevice instanceID volume) volume
       maxAttempts (attach_init tr)"

text \<open>
  Line 53: \<open>len(volume.Attachments) > 0 && *volume.Attachments[0].InstanceId == instanceID\<close>.
\<close>

definition already_attached :: "Volume \<Rightarrow> string \<Rightarrow> bool" where
  "already_attached volume instanceID =
     (case Attachments volume of [] \<Rightarrow> False | a # _ \<Rightarrow> InstanceId a = instanceID)"

text \<open>
  ebs.go, lines 49 to 132. \<open>blockDevice\<close> is the package variable set from the
  command line.
\<close>

definition attachVolume ::
  "world \<Rightarrow> string \<Rightarrow> string \<Rightarrow> Volume \<Rightarrow> int \<Rightarrow> event list \<Rightarrow> error option \<times> event list" where
  "attachVolume svc blockDevice instanceID volume maxAttempts tr =
     (if already_attached volume instanceID
      then (None, tr)
      else (let s = attach_run svc blockDevice instanceID volume maxAttempts tr
            in if \<not> attachSucceeded s
               then (Wrap (lastError s) ''Attaching volume failed'', trace s)
               else (None, trace s)))"

section \<open>Observing a run\<close>

text \<open>
  The results of the attach requests in a history, and the durations slept, both in
  the order of the calls.
\<close>

fun attach_results :: "event list \<Rightarrow> error option list" where
  "attach_results [] = []"
| "attach_results (AttachVolumeCall i r # evs) = r # attach_results evs"
| "attach_results (_ # evs) = attach_results evs"

fun sleeps :: "event list \<Rightarrow> int list" where
  "sleeps [] = []"
| "sleeps (SleepCall d # evs) = d # sleeps evs"
| "sleeps (_ # evs) = sleeps evs"

text \<open>
  A list of attach results in which an accepted request (\<open>None\<close>, no error) is followed
  by no further request: failures, then at most one success, which is last.
\<close>

fun attach_once :: "error option list \<Rightarrow> bool" where
  "attach_once [] = True"
| "attach_once (Some e # rs) = attach_once rs"
| "attach_once (None # rs) = (rs = [])"

text \<open>
  The confirmation poll fails on every attempt: whatever the variables and the
  history, the poll of lines 95 to 121 does not set \<open>attachSucceeded\<close>.
\<close>

definition poll_always_fails :: "world \<Rightarrow> string \<Rightarrow> Volume \<Rightarrow> bool" where
  "poll_always_fails svc blockDevice volume \<longleftrightarrow>
     (\<forall>t. \<not> attachSucceeded t \<longrightarrow> \<not> attachSucceeded (confirm svc blockDevice volume t))"

subsection \<open>Loop invariants\<close>

text \<open>\<open>lastError\<close> holds the value of the latest assignment to it.\<close>

definition last_recorded :: "attach_vars \<Rightarrow> bool" where
  "last_recorded t \<longleftrightarrow> recorded t \<noteq> [] \<and> lastError t = Some (last (recorded t))"

text \<open>
  Since the history \<open>tr0\<close> at the start of the loop: every attach request so far failed
  unless \<open>attachStarted\<close> is set, and an accepted one is the last.
\<close>

definition attach_inv :: "event list \<Rightarrow> attach_vars \<Rightarrow> bool" where
  "attach_inv tr0 t \<longleftrightarrow>
     (\<exists>evs. trace t = tr0 @ evs \<and> attach_once (attach_results evs)
        \<and> (\<not> attachStarted t \<longrightarrow> None \<notin> set (attach_results evs)))"

text \<open>Either nothing has happened yet, or the run began with the attach request.\<close>

definition first_inv :: "world \<Rightarrow> AttachVolumeInput \<Rightarrow> event list \<Rightarrow> attach_vars \<Rightarrow> bool" where
  "first_inv svc inp tr0 t \<longleftrightarrow>
     (attempts t = 0 \<and> trace t = tr0 \<and> \<not> attachStarted t)
     \<or> (\<exists>rest. trace t = tr0 @ AttachVolumeCall inp (ec2_AttachVolume svc tr0 inp) # rest)"

text \<open>
  At the head of the loop with \<open>attempts = i\<close>, the run has slept the first \<open>i - 1\<close>
  durations of the schedule, and the backoff counter stands at \<open>i - 1\<close>.
\<close>

definition sleep_inv :: "event list \<Rightarrow> attach_vars \<Rightarrow> bool" where
  "sleep_inv tr0 t \<longleftrightarrow>
     0 \<le> attempts t \<and> backoff t = attach_backoff\<lparr>attempt := nat (attempts t) - 1\<rparr>
     \<and> (\<exists>evs. trace t = tr0 @ evs
           \<and> sleeps evs = map (ForAttempt attach_backoff) [0 ..< nat (attempts t) - 1])"

section \<open>Example worlds\<close>

text \<open>
  A world that gives the same answer to every provider call, and in which every
  command succeeds and prints nothing.
\<close>

definition answering :: "error option \<Rightarrow> error + Volume list \<Rightarrow> world" where
  "answering a d =
     \<lparr>ec2_AttachVolume = (\<lambda>h i. a),
      ec2_DescribeVolumes = (\<lambda>h i. d),
      os_Stat = (\<lambda>h p. None),
      exec_Run = (\<lambda>h argv. None),
      exec_Output = (\<lambda>h argv. ([], None))\<rparr>"

definition throttled :: error where
  "throttled = AwsError ''RequestLimitExceeded'' ''Request limit exceeded.''"

text \<open>
  A free volume, the same volume while the attachment is in progress and when it is
  complete, and a multi-attach volume held first by another instance and second by
  instance i-1.
\<close>

definition free_volume :: Volume where
  "free_volume = \<lparr>VolumeId = ''vol-1'', Attachments = []\<rparr>"

definition attaching_volume :: Volume where
  "attaching_volume =
     \<lparr>VolumeId = ''vol-1'',
      Attachments = [\<lparr>Device = ''/dev/xvdf'', InstanceId = ''i-1'', State = ''attaching''\<rparr>]\<rparr>"

definition attached_volume :: Volume where
  "attached_volume =
     \<lparr>VolumeId = ''vol-1'',
      Attachments = [\<lparr>Device = ''/dev/xvdf'', InstanceId = ''i-1'', State = ''attached''\<rparr>]\<rparr>"

definition shared_volume :: Volume where
  "shared_volume =
     \<lparr>VolumeId = ''vol-1'',
      Attachments = [\<lparr>Device = ''/dev/sdf'', InstanceId = ''i-2'', State = ''attached''\<rparr>,
                     \<lparr>Device = ''/dev/xvdf'', InstanceId = ''i-1'', State = ''attached''\<rparr>]\<rparr>"

text \<open>The provider accepts the attach request, and the attachment never completes.\<close>

definition stuck_world :: world where
  "stuck_world = answering None (Inr [attaching_volume])"

text \<open>The provider refuses the first attach request and accepts the second.\<close>

definition flaky_world :: world where
  "flaky_world =
     (answering None (Inr [attaching_volume]))
       \<lparr>ec2_AttachVolume := (\<lambda>h i. if attach_results h = [] then Some throttled else None)\<rparr>"

text \<open>
  A host on which mounting /dev/xvdf at /data fails and the mount table is the given
  text.
\<close>

definition mount_failing :: "string \<Rightarrow> world" where
  "mount_failing table =
     (answering None (Inr []))
       \<lparr>exec_Run := (\<lambda>h argv. if argv = mount_cmd ''/dev/xvdf'' ''/data''
                                then Some (SysError ''exit status 32'') else None),
        exec_Output := (\<lambda>h argv. (table, None))\<rparr>"

text \<open>
  A disk without a filesystem: the probe fails until a format has succeeded; the
  format tool gives the given result.
\<close>

definition blank_disk :: "error option \<Rightarrow> world" where
  "blank_disk mkfs =
     (answering None (Inr []))
       \<lparr>exec_Run := (\<lambda>h argv.
          if argv = blkid_cmd ''/dev/xvdf''
          then (if RunCall (mkfs_cmd ''ext4'' ''/dev/xvdf'') None \<in> set h then None
                else Some (SysError ''exit status 2''))
          else if argv = mkfs_cmd ''ext4'' ''/dev/xvdf'' then mkfs
          else None)\<rparr>"


section \<open>Lemmas about strings\<close>

lemma HasPrefix_iff: "HasPrefix s p \<longleftrightarrow> (\<exists>q. s = p @ q)"
  by (induction s p rule: HasPrefix.induct) auto

lemma Contains_iff: "Contains s sub \<longleftrightarrow> (\<exists>p q. s = p @ sub @ q)"
proof (induction s)
  case Nil
  then show ?case by (simp add: HasPrefix_iff)
next
  case (Cons d ds)
  have "(\<exists>p q. d # ds = p @ sub @ q) \<longleftrightarrow> (\<exists>q. d # ds = sub @ q) \<or> (\<exists>p q. ds = p @ sub @ q)"
  proof
    assume "\<exists>p q. d # ds = p @ sub @ q"
    then obtain p q where pq: "d # ds = p @ sub @ q" by blast
    show "(\<exists>q. d # ds = sub @ q) \<or> (\<exists>p q. ds = p @ sub @ q)"
    proof (cases p)
      case Nil
      with pq show ?thesis by auto
    next
      case (Cons x xs)
      with pq have "ds = xs @ sub @ q" by simp
      then show ?thesis by blast
    qed
  next
    assume "(\<exists>q. d # ds = sub @ q) \<or> (\<exists>p q. ds = p @ sub @ q)"
    then show "\<exists>p q. d # ds = p @ sub @ q"
    proof
      assume "\<exists>q. d # ds = sub @ q"
      then obtain q where "d # ds = [] @ sub @ q" by auto
      then show ?thesis by blast
    next
      assume "\<exists>p q. ds = p @ sub @ q"
      then obtain p q where "ds = p @ sub @ q" by blast
      then have "d # ds = (d # p) @ sub @ q" by simp
      then show ?thesis by blast
    qed
  qed
  with Cons show ?case by (simp add: HasPrefix_iff)
qed

section \<open>Lemmas about the retry loop\<close>

lemma attach_results_append: "attach_results (xs @ ys) = attach_results xs @ attach_results ys"
  by (induction xs rule: attach_results.induct) simp_all

lemma sleeps_append: "sleeps (xs @ ys) = sleeps xs @ sleeps ys"
  by (induction xs rule: sleeps.induct) simp_all

lemma attach_once_snoc: "None \<notin> set rs \<Longrightarrow> attach_once (rs @ [r])"
  by (induction rs rule: attach_once.induct) (cases r; simp)+

lemma attach_once_count: "attach_once rs \<Longrightarrow> length (filter (\<lambda>r. r = None) rs) \<le> 1"
  by (induction rs rule: attach_once.induct) simp_all

lemma attach_loop_rule:
  assumes init: "I s"
    and step: "\<And>t. I t \<Longrightarrow> attempts t < n \<Longrightarrow> \<not> attachSucceeded (attempt_body svc dev inp v t)
                 \<Longrightarrow> I ((attempt_body svc dev inp v t)\<lparr>attempts := attempts t + 1\<rparr>)"
    and brk: "\<And>t. I t \<Longrightarrow> attempts t < n \<Longrightarrow> attachSucceeded (attempt_body svc dev inp v t)
                 \<Longrightarrow> Q (attempt_body svc dev inp v t)"
    and ex: "\<And>t. I t \<Longrightarrow> \<not> attempts t < n \<Longrightarrow> Q t"
  shows "Q (attach_loop svc dev inp v n s)"
  using assms
proof (induction svc dev inp v n s rule: attach_loop.induct)
  case (1 svc dev inp v n s)
  show ?case
  proof (cases "attempts s < n")
    case False
    with "1.prems"(1) "1.prems"(4) show ?thesis
      by (simp add: attach_loop.simps)
  next
    case True
    let ?s1 = "attempt_body svc dev inp v s"
    show ?thesis
    proof (cases "attachSucceeded ?s1")
      case brk: True
      with True "1.prems"(1) "1.prems"(3) show ?thesis
        by (simp add: attach_loop.simps [of svc dev inp v n s])
    next
      case go: False
      have I': "I (?s1\<lparr>attempts := attempts s + 1\<rparr>)"
        using "1.prems"(1) "1.prems"(2) True go by blast
      have "Q (attach_loop svc dev inp v n (?s1\<lparr>attempts := attempts s + 1\<rparr>))"
        by (rule "1.IH" [OF True refl go I' "1.prems"(2) "1.prems"(3) "1.prems"(4)])
      with True go show ?thesis
        by (simp add: attach_loop.simps [of svc dev inp v n s])
    qed
  qed
qed

lemma confirm_fields [simp]:
  "attachStarted (confirm svc dev v t) = attachStarted t"
  "backoff (confirm svc dev v t) = backoff t"
  "attempts (confirm svc dev v t) = attempts t"
  by (simp_all add: confirm_def set_lastError_def Let_def split: sum.splits list.splits option.splits)

lemma confirm_trace:
  "\<exists>evs. trace (confirm svc dev v t) = trace t @ evs \<and> attach_results evs = [] \<and> sleeps evs = []"
  by (simp add: confirm_def set_lastError_def Let_def split: sum.splits list.splits option.splits)

lemma backoff_wait_fields [simp]:
  "attachStarted (backoff_wait t) = attachStarted t"
  "attachSucceeded (backoff_wait t) = attachSucceeded t"
  "lastError (backoff_wait t) = lastError t"
  "recorded (backoff_wait t) = recorded t"
  "attempts (backoff_wait t) = attempts t"
  by (simp_all add: backoff_wait_def Duration_def Let_def)

lemma backoff_wait_trace:
  "trace (backoff_wait t) =
     trace t @ (if attempts t \<noteq> 0 then [SleepCall (ForAttempt (backoff t) (attempt (backoff t)))] else [])"
  by (simp add: backoff_wait_def Duration_def Let_def)

lemma set_lastError_fields [simp]:
  "attachStarted (set_lastError e t) = attachStarted t"
  "attachSucceeded (set_lastError e t) = attachSucceeded t"
  "backoff (set_lastError e t) = backoff t"
  "attempts (set_lastError e t) = attempts t"
  "trace (set_lastError e t) = trace t"
  "lastError (set_lastError e t) = Some e"
  "recorded (set_lastError e t) = recorded t @ [e]"
  by (simp_all add: set_lastError_def)

lemma attach_invI:
  "trace t = tr0 @ evs \<Longrightarrow> attach_once (attach_results evs)
     \<Longrightarrow> (\<not> attachStarted t \<Longrightarrow> None \<notin> set (attach_results evs)) \<Longrightarrow> attach_inv tr0 t"
  unfolding attach_inv_def by blast

lemma attach_inv_confirm:
  assumes "attach_inv tr0 t"
  shows "attach_inv tr0 (confirm svc dev v t)"
proof -
  from assms obtain evs where e: "trace t = tr0 @ evs" "attach_once (attach_results evs)"
    "\<not> attachStarted t \<longrightarrow> None \<notin> set (attach_results evs)"
    unfolding attach_inv_def by blast
  obtain evs' where e': "trace (confirm svc dev v t) = trace t @ evs'" "attach_results evs' = []"
    using confirm_trace by blast
  have "trace (confirm svc dev v t) = tr0 @ (evs @ evs')" using e e' by simp
  moreover have "attach_results (evs @ evs') = attach_results evs"
    using e' by (simp add: attach_results_append)
  ultimately show ?thesis unfolding attach_inv_def using e by auto
qed

lemma attach_inv_body:
  assumes "attach_inv tr0 t"
  shows "attach_inv tr0 (attempt_body svc dev inp v t)"
proof -
  let ?s2 = "backoff_wait (set_lastError (ErrorString ''Max attempts exceeded'') t)"
  from assms obtain evs where e: "trace t = tr0 @ evs" "attach_once (attach_results evs)"
    "\<not> attachStarted t \<longrightarrow> None \<notin> set (attach_results evs)"
    unfolding attach_inv_def by blast
  have s2: "attach_inv tr0 ?s2"
    unfolding attach_inv_def using e
    by (auto simp: backoff_wait_trace attach_results_append)
  show ?thesis
  proof (cases "attachStarted t")
    case True
    then show ?thesis using attach_inv_confirm [OF s2]
      by (simp add: attempt_body_def Let_def)
  next
    case False
    let ?err = "ec2_AttachVolume svc (trace ?s2) inp"
    let ?s3 = "?s2\<lparr>trace := trace ?s2 @ [AttachVolumeCall inp ?err]\<rparr>"
    have none: "None \<notin> set (attach_results evs)" using e False by simp
    obtain evs2 where e2: "trace ?s2 = tr0 @ evs2" "attach_results evs2 = attach_results evs"
      using e by (auto simp: backoff_wait_trace attach_results_append)
    have tr3: "trace ?s3 = tr0 @ (evs2 @ [AttachVolumeCall inp ?err])"
      using e2 by simp
    have res3: "attach_results (evs2 @ [AttachVolumeCall inp ?err]) = attach_results evs @ [?err]"
      using e2 by (simp add: attach_results_append)
    show ?thesis
    proof (cases ?err)
      case None
      have "attach_inv tr0 (?s3\<lparr>attachStarted := True\<rparr>)"
      proof (rule attach_invI)
        show "trace (?s3\<lparr>attachStarted := True\<rparr>) = tr0 @ (evs2 @ [AttachVolumeCall inp ?err])"
          using tr3 by simp
        show "attach_once (attach_results (evs2 @ [AttachVolumeCall inp ?err]))"
          using res3 none by (simp add: attach_once_snoc)
      qed simp
      from attach_inv_confirm [OF this] show ?thesis
        using False None by (simp add: attempt_body_def Let_def)
    next
      case (Some e)
      have "attach_inv tr0 (set_lastError e ?s3)"
      proof (rule attach_invI)
        show "trace (set_lastError e ?s3) = tr0 @ (evs2 @ [AttachVolumeCall inp ?err])"
          using tr3 by simp
        show "attach_once (attach_results (evs2 @ [AttachVolumeCall inp ?err]))"
          using res3 none by (simp add: attach_once_snoc)
        show "None \<notin> set (attach_results (evs2 @ [AttachVolumeCall inp ?err]))"
          using res3 none Some by simp
      qed
      then show ?thesis
        using False Some by (simp add: attempt_body_def Let_def)
    qed
  qed
qed

lemma attach_inv_loop:
  assumes "attach_inv tr0 s"
  shows "attach_inv tr0 (attach_loop svc dev inp v n s)"
proof (rule attach_loop_rule [where I = "attach_inv tr0"])
  show "attach_inv tr0 s" by (rule assms)
next
  fix t assume "attach_inv tr0 t"
  then have "attach_inv tr0 (attempt_body svc dev inp v t)" by (rule attach_inv_body)
  then show "attach_inv tr0 ((attempt_body svc dev inp v t)\<lparr>attempts := attempts t + 1\<rparr>)"
    by (simp add: attach_inv_def)
next
  fix t assume "attach_inv tr0 t"
  then show "attach_inv tr0 (attempt_body svc dev inp v t)" by (rule attach_inv_body)
qed

lemma confirm_last_recorded:
  "last_recorded t \<Longrightarrow> last_recorded (confirm svc dev v t)"
  by (simp add: confirm_def set_lastError_def last_recorded_def Let_def
      split: sum.splits list.splits option.splits)

lemma body_last_recorded: "last_recorded (attempt_body svc dev inp v t)"
proof -
  let ?s2 = "backoff_wait (set_lastError (ErrorString ''Max attempts exceeded'') t)"
  have s2: "last_recorded ?s2" by (simp add: last_recorded_def)
  have s3: "last_recorded (?s2\<lparr>trace := tr', attachStarted := True\<rparr>)" for tr'
    using s2 by (simp add: last_recorded_def)
  show ?thesis
    using confirm_last_recorded [OF s2] confirm_last_recorded [OF s3]
    by (simp add: attempt_body_def Let_def last_recorded_def split: option.splits)
qed

lemma loop_last_recorded:
  assumes "recorded s = [] \<and> lastError s = None \<and> attempts s = 0"
  shows "(recorded (attach_loop svc dev inp v n s) = []
            \<and> lastError (attach_loop svc dev inp v n s) = None \<and> n \<le> 0)
         \<or> last_recorded (attach_loop svc dev inp v n s)"
proof (rule attach_loop_rule
    [where I = "\<lambda>t. (recorded t = [] \<and> lastError t = None \<and> attempts t = 0) \<or> last_recorded t"])
  show "(recorded s = [] \<and> lastError s = None \<and> attempts s = 0) \<or> last_recorded s"
    using assms by simp
next
  fix t
  have "last_recorded (attempt_body svc dev inp v t)" by (rule body_last_recorded)
  then show "(recorded (attempt_body svc dev inp v t\<lparr>attempts := attempts t + 1\<rparr>) = []
      \<and> lastError (attempt_body svc dev inp v t\<lparr>attempts := attempts t + 1\<rparr>) = None
      \<and> attempts (attempt_body svc dev inp v t\<lparr>attempts := attempts t + 1\<rparr>) = 0)
     \<or> last_recorded (attempt_body svc dev inp v t\<lparr>attempts := attempts t + 1\<rparr>)"
    by (simp add: last_recorded_def)
next
  fix t
  show "(recorded (attempt_body svc dev inp v t) = [] \<and> lastError (attempt_body svc dev inp v t) = None \<and> n \<le> 0)
     \<or> last_recorded (attempt_body svc dev inp v t)"
    using body_last_recorded by blast
next
  fix t
  assume "(recorded t = [] \<and> lastError t = None \<and> attempts t = 0) \<or> last_recorded t"
    and "\<not> attempts t < n"
  then show "(recorded t = [] \<and> lastError t = None \<and> n \<le> 0) \<or> last_recorded t"
    by auto
qed

lemma body_trace_extends:
  "\<exists>evs. trace (attempt_body svc dev inp v t) = trace t @ evs"
proof -
  let ?s2 = "backoff_wait (set_lastError (ErrorString ''Max attempts exceeded'') t)"
  have s2: "\<exists>evs. trace ?s2 = trace t @ evs" by (simp add: backoff_wait_trace)
  have c: "\<exists>evs. trace (confirm svc dev v u) = trace t @ evs" if "\<exists>evs. trace u = trace t @ evs" for u
  proof -
    from that obtain e1 where "trace u = trace t @ e1" by blast
    moreover obtain e2 where "trace (confirm svc dev v u) = trace u @ e2"
      using confirm_trace by blast
    ultimately have "trace (confirm svc dev v u) = trace t @ (e1 @ e2)" by simp
    then show ?thesis by blast
  qed
  show ?thesis
  proof (cases "attachStarted t")
    case True
    then show ?thesis using c [OF s2] by (simp add: attempt_body_def Let_def)
  next
    case False
    let ?err = "ec2_AttachVolume svc (trace ?s2) inp"
    let ?s3 = "?s2\<lparr>trace := trace ?s2 @ [AttachVolumeCall inp ?err]\<rparr>"
    have s3: "\<exists>evs. trace ?s3 = trace t @ evs" by (simp add: backoff_wait_trace)
    then have s3': "\<exists>evs. trace (?s3\<lparr>attachStarted := True\<rparr>) = trace t @ evs" by simp
    show ?thesis
      using False s3 c [OF s3']
      by (cases ?err) (simp_all add: attempt_body_def Let_def)
  qed
qed

lemma body_first_attempt:
  assumes "attempts t = 0" and "\<not> attachStarted t"
  shows "\<exists>rest. trace (attempt_body svc dev inp v t) =
           trace t @ AttachVolumeCall inp (ec2_AttachVolume svc (trace t) inp) # rest"
proof -
  let ?s2 = "backoff_wait (set_lastError (ErrorString ''Max attempts exceeded'') t)"
  let ?err = "ec2_AttachVolume svc (trace t) inp"
  let ?s3 = "?s2\<lparr>trace := trace t @ [AttachVolumeCall inp ?err]\<rparr>"
  have tr2: "trace ?s2 = trace t" using assms by (simp add: backoff_wait_trace)
  show ?thesis
  proof (cases ?err)
    case (Some e)
    then show ?thesis using assms tr2 by (simp add: attempt_body_def Let_def)
  next
    case None
    obtain e2 where "trace (confirm svc dev v (?s3\<lparr>attachStarted := True\<rparr>)) =
        trace (?s3\<lparr>attachStarted := True\<rparr>) @ e2"
      using confirm_trace by blast
    then show ?thesis using assms tr2 None by (simp add: attempt_body_def Let_def)
  qed
qed

lemma first_inv_body:
  assumes "first_inv svc inp tr0 t"
  shows "\<exists>rest. trace (attempt_body svc dev inp v t) =
           tr0 @ AttachVolumeCall inp (ec2_AttachVolume svc tr0 inp) # rest"
  using assms unfolding first_inv_def
proof
  assume "attempts t = 0 \<and> trace t = tr0 \<and> \<not> attachStarted t"
  then show ?thesis using body_first_attempt [of t svc dev inp v] by simp
next
  assume "\<exists>rest. trace t = tr0 @ AttachVolumeCall inp (ec2_AttachVolume svc tr0 inp) # rest"
  then obtain rest where "trace t = tr0 @ AttachVolumeCall inp (ec2_AttachVolume svc tr0 inp) # rest"
    by blast
  moreover obtain evs where "trace (attempt_body svc dev inp v t) = trace t @ evs"
    using body_trace_extends by blast
  ultimately have "trace (attempt_body svc dev inp v t) =
      tr0 @ AttachVolumeCall inp (ec2_AttachVolume svc tr0 inp) # (rest @ evs)" by simp
  then show ?thesis by blast
qed

lemma body_attempts [simp]: "attempts (attempt_body svc dev inp v t) = attempts t"
  by (simp add: attempt_body_def Let_def split: option.splits)

lemma loop_first_event:
  assumes "attempts s = 0" and "trace s = tr0" and "\<not> attachStarted s" and "0 < n"
  shows "\<exists>rest. trace (attach_loop svc dev inp v n s) =
           tr0 @ AttachVolumeCall inp (ec2_AttachVolume svc tr0 inp) # rest"
proof (rule attach_loop_rule [where I = "first_inv svc inp tr0"])
  show "first_inv svc inp tr0 s" using assms by (simp add: first_inv_def)
next
  fix t assume "first_inv svc inp tr0 t"
  from first_inv_body [OF this]
  show "first_inv svc inp tr0 (attempt_body svc dev inp v t\<lparr>attempts := attempts t + 1\<rparr>)"
    by (simp add: first_inv_def)
next
  fix t assume "first_inv svc inp tr0 t"
  from first_inv_body [OF this]
  show "\<exists>rest. trace (attempt_body svc dev inp v t) =
           tr0 @ AttachVolumeCall inp (ec2_AttachVolume svc tr0 inp) # rest" .
next
  fix t assume "first_inv svc inp tr0 t" and "\<not> attempts t < n"
  with \<open>0 < n\<close> show "\<exists>rest. trace t = tr0 @ AttachVolumeCall inp (ec2_AttachVolume svc tr0 inp) # rest"
    by (auto simp: first_inv_def)
qed

lemma ForAttempt_attempt [simp]: "ForAttempt (bk\<lparr>attempt := k\<rparr>) m = ForAttempt bk m"
  by (simp add: ForAttempt_def Let_def)

lemma ForAttempt_attach_backoff:
  "ForAttempt attach_backoff k = min (5 * Second * 2 ^ k) (100 * Second)"
proof -
  have "(1::int) \<le> 2 ^ k" by simp
  then have "5 * Second \<le> 5 * Second * 2 ^ k" by (simp add: Second_def)
  then show ?thesis
    by (simp add: ForAttempt_def attach_backoff_def Let_def min_def)
qed

lemma body_backoff:
  "backoff (attempt_body svc dev inp v t) =
     (if attempts t \<noteq> 0 then (backoff t)\<lparr>attempt := attempt (backoff t) + 1\<rparr> else backoff t)"
  by (simp add: attempt_body_def Let_def backoff_wait_def Duration_def split: option.splits)

lemma body_sleeps:
  "\<exists>evs. trace (attempt_body svc dev inp v t) = trace t @ evs
      \<and> sleeps evs = (if attempts t \<noteq> 0 then [ForAttempt (backoff t) (attempt (backoff t))] else [])"
proof -
  let ?s2 = "backoff_wait (set_lastError (ErrorString ''Max attempts exceeded'') t)"
  let ?sl = "if attempts t \<noteq> 0 then [SleepCall (ForAttempt (backoff t) (attempt (backoff t)))] else []"
  let ?d = "if attempts t \<noteq> 0 then [ForAttempt (backoff t) (attempt (backoff t))] else []"
  have s2: "trace ?s2 = trace t @ ?sl" by (simp add: backoff_wait_trace)
  have sl: "sleeps ?sl = ?d" by simp
  have c: "\<exists>evs. trace (confirm svc dev v u) = trace t @ evs \<and> sleeps evs = ?d"
    if "trace u = trace t @ e1" and "sleeps e1 = ?d" for u e1
  proof -
    obtain e2 where e2: "trace (confirm svc dev v u) = trace u @ e2" "sleeps e2 = []"
      using confirm_trace by blast
    have "trace (confirm svc dev v u) = trace t @ (e1 @ e2)" using that e2 by simp
    moreover have "sleeps (e1 @ e2) = ?d" using that e2 by (simp add: sleeps_append)
    ultimately show ?thesis by blast
  qed
  show ?thesis
  proof (cases "attachStarted t")
    case True
    then show ?thesis using c [OF s2 sl] by (simp add: attempt_body_def Let_def)
  next
    case False
    let ?err = "ec2_AttachVolume svc (trace ?s2) inp"
    let ?s3 = "?s2\<lparr>trace := trace ?s2 @ [AttachVolumeCall inp ?err]\<rparr>"
    have t3: "trace ?s3 = trace t @ (?sl @ [AttachVolumeCall inp ?err])"
      by (simp add: backoff_wait_trace)
    have sl3: "sleeps (?sl @ [AttachVolumeCall inp ?err]) = ?d"
      by (simp add: sleeps_append)
    show ?thesis
    proof (cases ?err)
      case (Some e)
      have "trace (set_lastError e ?s3) = trace t @ (?sl @ [AttachVolumeCall inp ?err])"
        using t3 by simp
      with sl3 have "\<exists>evs. trace (set_lastError e ?s3) = trace t @ evs \<and> sleeps evs = ?d"
        by blast
      then show ?thesis using False Some by (simp add: attempt_body_def Let_def)
    next
      case None
      have "trace (?s3\<lparr>attachStarted := True\<rparr>) = trace t @ (?sl @ [AttachVolumeCall inp ?err])"
        using t3 by simp
      from c [OF this sl3] show ?thesis using False None by (simp add: attempt_body_def Let_def)
    qed
  qed
qed

lemma sleep_inv_step:
  assumes "sleep_inv tr0 t"
  shows "sleep_inv tr0 (attempt_body svc dev inp v t\<lparr>attempts := attempts t + 1\<rparr>)"
proof -
  from assms obtain evs where i: "0 \<le> attempts t"
    "backoff t = attach_backoff\<lparr>attempt := nat (attempts t) - 1\<rparr>"
    "trace t = tr0 @ evs"
    "sleeps evs = map (ForAttempt attach_backoff) [0 ..< nat (attempts t) - 1]"
    unfolding sleep_inv_def by blast
  obtain evs' where b: "trace (attempt_body svc dev inp v t) = trace t @ evs'"
    "sleeps evs' = (if attempts t \<noteq> 0 then [ForAttempt (backoff t) (attempt (backoff t))] else [])"
    using body_sleeps by blast
  have tr: "trace (attempt_body svc dev inp v t\<lparr>attempts := attempts t + 1\<rparr>) = tr0 @ (evs @ evs')"
    using i b by simp
  have n1: "nat (attempts t + 1) - 1 = nat (attempts t)" using i by simp
  show ?thesis
  proof (cases "attempts t = 0")
    case True
    have "sleeps (evs @ evs') = map (ForAttempt attach_backoff) [0 ..< nat (attempts t + 1) - 1]"
      using i b True by (simp add: sleeps_append)
    moreover have "backoff (attempt_body svc dev inp v t) = attach_backoff\<lparr>attempt := nat (attempts t + 1) - 1\<rparr>"
      using i True by (simp add: body_backoff)
    ultimately show ?thesis unfolding sleep_inv_def using tr i by auto
  next
    case False
    then have pos: "0 < attempts t" using i by simp
    then have suc: "nat (attempts t) = Suc (nat (attempts t) - 1)" by simp
    have "sleeps (evs @ evs') =
        map (ForAttempt attach_backoff) [0 ..< nat (attempts t) - 1]
          @ [ForAttempt attach_backoff (nat (attempts t) - 1)]"
      using i b False by (simp add: sleeps_append)
    also have "\<dots> = map (ForAttempt attach_backoff) [0 ..< Suc (nat (attempts t) - 1)]"
      by simp
    finally have sl: "sleeps (evs @ evs') = map (ForAttempt attach_backoff) [0 ..< nat (attempts t + 1) - 1]"
      using suc n1 by simp
    have "backoff (attempt_body svc dev inp v t) = attach_backoff\<lparr>attempt := Suc (nat (attempts t) - 1)\<rparr>"
      using i False by (simp add: body_backoff)
    then have "backoff (attempt_body svc dev inp v t) = attach_backoff\<lparr>attempt := nat (attempts t + 1) - 1\<rparr>"
      using suc n1 by simp
    then show ?thesis unfolding sleep_inv_def using tr i sl by auto
  qed
qed

lemma body_not_succeeded:
  assumes "poll_always_fails svc dev v" and "\<not> attachSucceeded t"
  shows "\<not> attachSucceeded (attempt_body svc dev inp v t)"
proof -
  have c: "\<not> attachSucceeded (confirm svc dev v u)" if "\<not> attachSucceeded u" for u
    using assms(1) that unfolding poll_always_fails_def by blast
  show ?thesis
    using assms(2) by (simp add: attempt_body_def Let_def c split: option.splits)
qed

lemma loop_exhausted:
  assumes fails: "poll_always_fails svc dev v"
    and s: "sleep_inv tr0 s" "\<not> attachSucceeded s" "attempts s \<le> n"
  shows "attempts (attach_loop svc dev inp v n s) = n
     \<and> \<not> attachSucceeded (attach_loop svc dev inp v n s)
     \<and> sleep_inv tr0 (attach_loop svc dev inp v n s)"
proof (rule attach_loop_rule
    [where I = "\<lambda>t. sleep_inv tr0 t \<and> \<not> attachSucceeded t \<and> attempts t \<le> n"])
  show "sleep_inv tr0 s \<and> \<not> attachSucceeded s \<and> attempts s \<le> n" using s by simp
next
  fix t
  assume i: "sleep_inv tr0 t \<and> \<not> attachSucceeded t \<and> attempts t \<le> n"
    and lt: "attempts t < n"
    and ns: "\<not> attachSucceeded (attempt_body svc dev inp v t)"
  have "sleep_inv tr0 (attempt_body svc dev inp v t\<lparr>attempts := attempts t + 1\<rparr>)"
    using i by (simp add: sleep_inv_step)
  then show "sleep_inv tr0 (attempt_body svc dev inp v t\<lparr>attempts := attempts t + 1\<rparr>)
      \<and> \<not> attachSucceeded (attempt_body svc dev inp v t\<lparr>attempts := attempts t + 1\<rparr>)
      \<and> attempts (attempt_body svc dev inp v t\<lparr>attempts := attempts t + 1\<rparr>) \<le> n"
    using ns lt by simp
next
  fix t
  assume i: "sleep_inv tr0 t \<and> \<not> attachSucceeded t \<and> attempts t \<le> n"
    and "attachSucceeded (attempt_body svc dev inp v t)"
  with body_not_succeeded [OF fails, of t inp]
  show "attempts (attempt_body svc dev inp v t) = n
     \<and> \<not> attachSucceeded (attempt_body svc dev inp v t)
     \<and> sleep_inv tr0 (attempt_body svc dev inp v t)"
    by simp
next
  fix t
  assume "sleep_inv tr0 t \<and> \<not> attachSucceeded t \<and> attempts t \<le> n" and "\<not> attempts t < n"
  then show "attempts t = n \<and> \<not> attachSucceeded t \<and> sleep_inv tr0 t" by simp
qed

section \<open>Lemmas about the example worlds\<close>

lemma blank_disk_Run:
  "exec_Run (blank_disk m) h argv =
     (if argv = blkid_cmd ''/dev/xvdf''
      then (if RunCall (mkfs_cmd ''ext4'' ''/dev/xvdf'') None \<in> set h then None
            else Some (SysError ''exit status 2''))
      else if argv = mkfs_cmd ''ext4'' ''/dev/xvdf'' then m
      else None)"
  by (simp add: blank_disk_def answering_def)

lemma mount_failing_Run:
  "exec_Run (mount_failing table) h argv =
     (if argv = mount_cmd ''/dev/xvdf'' ''/data'' then Some (SysError ''exit status 32'') else None)"
  by (simp add: mount_failing_def answering_def)

lemma mount_failing_Output: "exec_Output (mount_failing table) h argv = (table, None)"
  by (simp add: mount_failing_def answering_def)

section \<open>A run that succeeds\<close>

text \<open>
  When the provider accepts the request, reports the attachment as attached and the
  device exists, the first attempt succeeds: one attach request, one poll, one stat, no
  sleep, and the result is nil.
\<close>

lemma attachVolume_first_attempt_succeeds:
  "attachVolume (answering None (Inr [attached_volume])) ''/dev/xvdf'' ''i-1'' free_volume 3 [] =
     (None,
      [AttachVolumeCall (attach_input ''/dev/xvdf'' ''i-1'' free_volume) None,
       DescribeVolumesCall \<lparr>Filters = [], VolumeIds = [''vol-1'']\<rparr> (Inr [attached_volume]),
       StatCall ''/dev/xvdf'' None])"
  by code_simp

section \<open>The claims\<close>

subsection \<open>volumeFromID\<close>

text \<open>
  C6: when the describe call filtered by volume-id and availability zone succeeds,
  volumeFromID returns the first volume of the result, and for an empty result the
  error "cannot find volume with volume-id: ...", which is a plain message error and not
  an error of the provider's type.
\<close>

theorem volumeFromID_not_found:
  assumes "ec2_DescribeVolumes svc tr (volume_filter volumeID az) = Inr volumes"
  shows "fst (volumeFromID svc volumeID az tr) =
           (case volumes of
              [] \<Rightarrow> Inl (ErrorString (''cannot find volume with volume-id: '' @ volumeID))
            | v # _ \<Rightarrow> Inr v)
         \<and> \<not> is_awserr (ErrorString (''cannot find volume with volume-id: '' @ volumeID))"
  using assms by (simp add: volumeFromID_def Let_def split: list.splits)

theorem volumeFromID_not_found_witness:
  "ec2_DescribeVolumes (answering None (Inr [])) [] (volume_filter ''vol-1'' ''eu-west-1a'') = Inr []
   \<and> fst (volumeFromID (answering None (Inr [])) ''vol-1'' ''eu-west-1a'' []) =
       Inl (ErrorString ''cannot find volume with volume-id: vol-1'')
   \<and> ec2_DescribeVolumes (answering None (Inr [free_volume, shared_volume])) []
        (volume_filter ''vol-1'' ''eu-west-1a'') = Inr [free_volume, shared_volume]
   \<and> fst (volumeFromID (answering None (Inr [free_volume, shared_volume]))
            ''vol-1'' ''eu-west-1a'' []) = Inr free_volume"
proof -
  have a: "ec2_DescribeVolumes (answering None (Inr [])) []
             (volume_filter ''vol-1'' ''eu-west-1a'') = Inr []"
    by (simp add: answering_def)
  have b: "ec2_DescribeVolumes (answering None (Inr [free_volume, shared_volume])) []
             (volume_filter ''vol-1'' ''eu-west-1a'') = Inr [free_volume, shared_volume]"
    by (simp add: answering_def)
  show ?thesis
    using a b volumeFromID_not_found [OF a] volumeFromID_not_found [OF b] by simp
qed

subsection \<open>ensureVolumeInited\<close>

text \<open>
  C7: from any history, if the probe succeeds then ensureVolumeInited returns nil and
  the probe is the only command it runs, so an invocation on a formatted device runs
  the format tool zero times; if the probe fails, the format tool is run once, and its
  failure is returned wrapped with "mkfs.<fsType> failed".
\<close>

theorem ensureVolumeInited_idempotent:
  "(exec_Run w tr (blkid_cmd dev) = None \<longrightarrow>
      ensureVolumeInited w dev fs tr = (None, tr @ [RunCall (blkid_cmd dev) None]))
   \<and> (\<forall>e. exec_Run w tr (blkid_cmd dev) = Some e \<longrightarrow>
        (let tr1 = tr @ [RunCall (blkid_cmd dev) (Some e)];
             r = exec_Run w tr1 (mkfs_cmd fs dev)
         in ensureVolumeInited w dev fs tr =
              (case r of None \<Rightarrow> None
               | Some err \<Rightarrow> Some (WithMessage err (''mkfs.'' @ fs @ '' failed'')),
               tr1 @ [RunCall (mkfs_cmd fs dev) r])))"
  by (auto simp: ensureVolumeInited_def Let_def Wrap_def split: option.splits)

theorem ensureVolumeInited_idempotent_witness:
  "ensureVolumeInited (blank_disk None) ''/dev/xvdf'' ''ext4'' [] =
     (None, [RunCall (blkid_cmd ''/dev/xvdf'') (Some (SysError ''exit status 2'')),
             RunCall (mkfs_cmd ''ext4'' ''/dev/xvdf'') None])
   \<and> ensureVolumeInited (blank_disk None) ''/dev/xvdf'' ''ext4''
       [RunCall (blkid_cmd ''/dev/xvdf'') (Some (SysError ''exit status 2'')),
        RunCall (mkfs_cmd ''ext4'' ''/dev/xvdf'') None] =
     (None, [RunCall (blkid_cmd ''/dev/xvdf'') (Some (SysError ''exit status 2'')),
             RunCall (mkfs_cmd ''ext4'' ''/dev/xvdf'') None,
             RunCall (blkid_cmd ''/dev/xvdf'') None])
   \<and> fst (ensureVolumeInited (blank_disk (Some (SysError ''exit status 1'')))
            ''/dev/xvdf'' ''ext4'' []) =
       Some (WithMessage (SysError ''exit status 1'') ''mkfs.ext4 failed'')"
  using ensureVolumeInited_idempotent [of "blank_disk None" "[]" "''/dev/xvdf''" "''ext4''"]
    ensureVolumeInited_idempotent [of "blank_disk None"
       "[RunCall (blkid_cmd ''/dev/xvdf'') (Some (SysError ''exit status 2'')),
         RunCall (mkfs_cmd ''ext4'' ''/dev/xvdf'') None]" "''/dev/xvdf''" "''ext4''"]
    ensureVolumeInited_idempotent [of "blank_disk (Some (SysError ''exit status 1''))" "[]"
       "''/dev/xvdf''" "''ext4''"]
  by (simp add: blank_disk_Run Let_def blkid_cmd_def mkfs_cmd_def)

subsection \<open>ensureVolumeMounted\<close>

text \<open>
  C8: when the mount point is created, the mount command fails, the mount table is
  read without error and its text contains "<device> on <mountPoint>",
  ensureVolumeMounted returns nil, and the commands of the run are the directory
  creation, the one mount command and the reading of the mount table: there is no
  second mount command.
\<close>

theorem ensureVolumeMounted_already_mounted:
  assumes "exec_Run w tr (mkdir_cmd mp) = None"
    and "tr1 = tr @ [RunCall (mkdir_cmd mp) None]"
    and "exec_Run w tr1 (mount_cmd dev mp) = Some e"
    and "tr2 = tr1 @ [RunCall (mount_cmd dev mp) (Some e)]"
    and "exec_Output w tr2 [''mount''] = (out, None)"
    and "out = before @ (dev @ '' on '' @ mp) @ after"
  shows "ensureVolumeMounted w dev mp tr = (None, tr2 @ [OutputCall [''mount''] out None])"
proof -
  have "Contains out (dev @ '' on '' @ mp)"
    unfolding Contains_iff using assms(6) by blast
  with assms(1-5) show ?thesis
    by (simp add: ensureVolumeMounted_def Let_def)
qed

theorem ensureVolumeMounted_already_mounted_witness:
  "ensureVolumeMounted
     (mount_failing ''proc on /proc type proc (rw)/dev/xvdf on /data type ext4 (rw)'')
     ''/dev/xvdf'' ''/data'' [] =
   (None, [RunCall (mkdir_cmd ''/data'') None,
           RunCall (mount_cmd ''/dev/xvdf'' ''/data'') (Some (SysError ''exit status 32'')),
           OutputCall [''mount'']
             ''proc on /proc type proc (rw)/dev/xvdf on /data type ext4 (rw)'' None])"
proof -
  let ?table = "''proc on /proc type proc (rw)/dev/xvdf on /data type ext4 (rw)''"
  have c: "?table = ''proc on /proc type proc (rw)'' @ (''/dev/xvdf'' @ '' on '' @ ''/data'')
             @ '' type ext4 (rw)''"
    by simp
  have m: "exec_Run (mount_failing ?table) [] (mkdir_cmd ''/data'') = None"
    by (simp add: mount_failing_Run mkdir_cmd_def mount_cmd_def)
  have f: "exec_Run (mount_failing ?table) ([] @ [RunCall (mkdir_cmd ''/data'') None])
             (mount_cmd ''/dev/xvdf'' ''/data'') = Some (SysError ''exit status 32'')"
    by (simp add: mount_failing_Run)
  have t: "exec_Output (mount_failing ?table)
             (([] @ [RunCall (mkdir_cmd ''/data'') None])
                @ [RunCall (mount_cmd ''/dev/xvdf'' ''/data'') (Some (SysError ''exit status 32''))])
             [''mount''] = (?table, None)"
    by (simp add: mount_failing_Output)
  show ?thesis
    using ensureVolumeMounted_already_mounted [OF m refl f refl t c] by simp
qed

text \<open>
  C1: the claim is that a run in which the mount command fails, the mount table is read
  without error and has no entry "<device> on <mountPoint>" returns a "cannot mount or
  verify" error. The code does not: on such a host ensureVolumeMounted returns nil.
  Line 183 wraps the \<open>err\<close> of the mount table read, which is nil there, and the wrap of
  nil is nil.
\<close>

theorem ensureVolumeMounted_unverified_returns_nil:
  "exec_Run (mount_failing ''proc on /proc type proc (rw)'')
      [RunCall (mkdir_cmd ''/data'') None] (mount_cmd ''/dev/xvdf'' ''/data'')
     = Some (SysError ''exit status 32'')
   \<and> \<not> Contains ''proc on /proc type proc (rw)'' (''/dev/xvdf'' @ '' on '' @ ''/data'')
   \<and> ensureVolumeMounted (mount_failing ''proc on /proc type proc (rw)'')
        ''/dev/xvdf'' ''/data'' [] =
      (None, [RunCall (mkdir_cmd ''/data'') None,
              RunCall (mount_cmd ''/dev/xvdf'' ''/data'') (Some (SysError ''exit status 32'')),
              OutputCall [''mount''] ''proc on /proc type proc (rw)'' None])"
  by (simp add: ensureVolumeMounted_def mount_failing_Run mount_failing_Output Let_def
      mkdir_cmd_def mount_cmd_def Wrap_def)

subsection \<open>attachVolume\<close>

text \<open>
  C3: when the first attachment of the volume names the requesting instance,
  attachVolume returns nil at once and the history is unchanged: no attach request, no
  confirmation poll, no other call.
\<close>

theorem attachVolume_already_attached:
  assumes "Attachments v = a # as" and "InstanceId a = iid"
  shows "attachVolume svc dev iid v n tr = (None, tr)"
  using assms by (simp add: attachVolume_def already_attached_def)

theorem attachVolume_already_attached_witness:
  "Attachments attaching_volume =
     [\<lparr>Device = ''/dev/xvdf'', InstanceId = ''i-1'', State = ''attaching''\<rparr>]
   \<and> attachVolume stuck_world ''/dev/xvdf'' ''i-1'' attaching_volume 3 [] = (None, [])"
proof -
  have a: "Attachments attaching_volume =
             \<lparr>Device = ''/dev/xvdf'', InstanceId = ''i-1'', State = ''attaching''\<rparr> # []"
    by (simp add: attaching_volume_def)
  have b: "InstanceId \<lparr>Device = ''/dev/xvdf'', InstanceId = ''i-1'', State = ''attaching''\<rparr> = ''i-1''"
    by simp
  show ?thesis using a attachVolume_already_attached [OF a b] by simp
qed

text \<open>
  C9: when maxAttempts is zero or negative and the volume is not already attached to
  the requesting instance, attachVolume returns nil and the history is unchanged: no
  attach request, no poll, no sleep.
\<close>

theorem attachVolume_no_budget:
  assumes "n \<le> 0" and "\<not> already_attached v iid"
  shows "attachVolume svc dev iid v n tr = (None, tr)"
  using assms
  by (simp add: attachVolume_def attach_run_def attach_loop.simps attach_init_def Wrap_def)

theorem attachVolume_no_budget_witness:
  "(0::int) \<le> 0 \<and> \<not> already_attached free_volume ''i-1''
   \<and> attachVolume stuck_world ''/dev/xvdf'' ''i-1'' free_volume 0 [] = (None, [])
   \<and> - 1 \<le> (0::int) \<and> \<not> already_attached shared_volume ''i-1''
   \<and> attachVolume stuck_world ''/dev/xvdf'' ''i-1'' shared_volume (- 1) [] = (None, [])"
proof -
  have a: "(0::int) \<le> 0" and a': "- 1 \<le> (0::int)" by simp_all
  have b: "\<not> already_attached free_volume ''i-1''"
    by (simp add: already_attached_def free_volume_def)
  have b': "\<not> already_attached shared_volume ''i-1''"
    by (simp add: already_attached_def shared_volume_def)
  show ?thesis
    using b b' attachVolume_no_budget [OF a b] attachVolume_no_budget [OF a' b'] by simp
qed

text \<open>
  C2: in every run of attachVolume, from any history and for any number of attempts,
  the attach requests of the run are failures followed by at most one accepted request,
  which is the last request of the run: an accepted request is never followed by
  another, so at most one request is accepted. A failed request may be reissued: in
  the world that refuses the first request, a run with three attempts issues a second
  one on the next attempt, and after that is accepted, none on the third.
\<close>

theorem attachVolume_attach_once:
  "(\<exists>evs. snd (attachVolume svc dev iid v n tr) = tr @ evs
       \<and> attach_once (attach_results evs)
       \<and> length (filter (\<lambda>r. r = None) (attach_results evs)) \<le> 1)
   \<and> attach_results (snd (attachVolume flaky_world ''/dev/xvdf'' ''i-1'' free_volume 3 [])) =
       [Some throttled, None]"
proof
  show "\<exists>evs. snd (attachVolume svc dev iid v n tr) = tr @ evs
       \<and> attach_once (attach_results evs)
       \<and> length (filter (\<lambda>r. r = None) (attach_results evs)) \<le> 1"
  proof (cases "already_attached v iid")
    case True
    then have "snd (attachVolume svc dev iid v n tr) = tr @ []"
      by (simp add: attachVolume_def)
    then show ?thesis by fastforce
  next
    case False
    have "attach_inv tr (attach_init tr)"
      by (rule attach_invI [where evs = "[]"]) (simp_all add: attach_init_def)
    then have "attach_inv tr (attach_run svc dev iid v n tr)"
      unfolding attach_run_def by (rule attach_inv_loop)
    then obtain evs where "trace (attach_run svc dev iid v n tr) = tr @ evs"
      and once: "attach_once (attach_results evs)"
      unfolding attach_inv_def by blast
    with False have "snd (attachVolume svc dev iid v n tr) = tr @ evs"
      by (simp add: attachVolume_def Let_def)
    with once attach_once_count [OF once] show ?thesis by blast
  qed
next
  show "attach_results (snd (attachVolume flaky_world ''/dev/xvdf'' ''i-1'' free_volume 3 [])) =
       [Some throttled, None]"
    by code_simp
qed

text \<open>
  C4: in a run that is not cut short by an existing attachment and in which no attempt
  succeeds, every failure attachVolume returns is the value of the latest assignment to
  lastError wrapped with "Attaching volume failed"; with a budget of at least one
  attempt such a failure is returned.
\<close>

theorem attachVolume_exhausted_error:
  assumes "\<not> already_attached v iid"
    and "\<not> attachSucceeded (attach_run svc dev iid v n tr)"
  shows "(0 < n \<longrightarrow>
            recorded (attach_run svc dev iid v n tr) \<noteq> [] \<and>
            fst (attachVolume svc dev iid v n tr) =
              Some (WithMessage (last (recorded (attach_run svc dev iid v n tr)))
                      ''Attaching volume failed''))
       \<and> (\<forall>e. fst (attachVolume svc dev iid v n tr) = Some e \<longrightarrow>
            recorded (attach_run svc dev iid v n tr) \<noteq> [] \<and>
            e = WithMessage (last (recorded (attach_run svc dev iid v n tr)))
                  ''Attaching volume failed'')"
proof -
  let ?s = "attach_run svc dev iid v n tr"
  have res: "fst (attachVolume svc dev iid v n tr) = Wrap (lastError ?s) ''Attaching volume failed''"
    using assms by (simp add: attachVolume_def Let_def)
  have "(recorded ?s = [] \<and> lastError ?s = None \<and> n \<le> 0) \<or> last_recorded ?s"
    unfolding attach_run_def
    by (rule loop_last_recorded) (simp add: attach_init_def)
  then show ?thesis
    using res by (auto simp: Wrap_def last_recorded_def)
qed

theorem attachVolume_exhausted_error_witness:
  "\<not> already_attached free_volume ''i-1''
   \<and> \<not> attachSucceeded
         (attach_run (answering None (Inl throttled)) ''/dev/xvdf'' ''i-1'' free_volume 2 [])
   \<and> recorded (attach_run (answering None (Inl throttled)) ''/dev/xvdf'' ''i-1'' free_volume 2 []) =
       [ErrorString ''Max attempts exceeded'', throttled,
        ErrorString ''Max attempts exceeded'', throttled]
   \<and> fst (attachVolume (answering None (Inl throttled)) ''/dev/xvdf'' ''i-1'' free_volume 2 []) =
       Some (WithMessage throttled ''Attaching volume failed'')"
proof -
  let ?w = "answering None (Inl throttled)"
  let ?s = "attach_run ?w ''/dev/xvdf'' ''i-1'' free_volume 2 []"
  have a: "\<not> already_attached free_volume ''i-1''"
    by (simp add: already_attached_def free_volume_def)
  have b: "\<not> attachSucceeded ?s" by code_simp
  have r: "recorded ?s = [ErrorString ''Max attempts exceeded'', throttled,
        ErrorString ''Max attempts exceeded'', throttled]" by code_simp
  have "0 < (2::int) \<longrightarrow> recorded ?s \<noteq> [] \<and>
      fst (attachVolume ?w ''/dev/xvdf'' ''i-1'' free_volume 2 []) =
        Some (WithMessage (last (recorded ?s)) ''Attaching volume failed'')"
    using attachVolume_exhausted_error [OF a b] by (rule conjunct1)
  then have "fst (attachVolume ?w ''/dev/xvdf'' ''i-1'' free_volume 2 []) =
        Some (WithMessage (last (recorded ?s)) ''Attaching volume failed'')"
    by simp
  then have "fst (attachVolume ?w ''/dev/xvdf'' ''i-1'' free_volume 2 []) =
        Some (WithMessage throttled ''Attaching volume failed'')"
    unfolding r by simp
  with a b r show ?thesis by (intro conjI)
qed

text \<open>
  C5: for maxAttempts N of at least one and a volume not already attached to the
  instance, if the confirmation poll never succeeds then the loop is left with
  attempts = N and without success, attachVolume returns a failure wrapped with
  "Attaching volume failed", the first call of the run is the attach request and not a
  sleep, and the durations slept are, in order, the first N - 1 durations of the
  backoff schedule, which are min (5 s * 2^k, 100 s) for k = 0, 1, ..., so the total
  sleep is their sum.
\<close>

theorem attachVolume_poll_always_fails:
  assumes "1 \<le> n" and "\<not> already_attached v iid" and "poll_always_fails svc dev v"
  shows "attempts (attach_run svc dev iid v n tr) = n
       \<and> \<not> attachSucceeded (attach_run svc dev iid v n tr)
       \<and> (\<exists>e. fst (attachVolume svc dev iid v n tr) =
                 Some (WithMessage e ''Attaching volume failed''))
       \<and> (\<exists>rest. snd (attachVolume svc dev iid v n tr) =
                 tr @ AttachVolumeCall (attach_input dev iid v)
                        (ec2_AttachVolume svc tr (attach_input dev iid v)) # rest)
       \<and> (\<exists>evs. snd (attachVolume svc dev iid v n tr) = tr @ evs
             \<and> sleeps evs = map (ForAttempt attach_backoff) [0 ..< nat n - 1]
             \<and> sleeps evs = map (\<lambda>k. min (5 * Second * 2 ^ k) (100 * Second)) [0 ..< nat n - 1]
             \<and> sum_list (sleeps evs) =
                 (\<Sum>k = 0 ..< nat n - 1. min (5 * Second * 2 ^ k) (100 * Second)))"
proof -
  let ?s = "attach_run svc dev iid v n tr"
  have init: "sleep_inv tr (attach_init tr)"
    by (simp add: sleep_inv_def attach_init_def attach_backoff_def)
  have ex: "attempts ?s = n \<and> \<not> attachSucceeded ?s \<and> sleep_inv tr ?s"
    unfolding attach_run_def
    using assms(1) by (intro loop_exhausted [OF assms(3) init]) (simp_all add: attach_init_def)
  have tr: "snd (attachVolume svc dev iid v n tr) = trace ?s"
    using assms(2) by (simp add: attachVolume_def Let_def)
  have "(recorded ?s = [] \<and> lastError ?s = None \<and> n \<le> 0) \<or> last_recorded ?s"
    unfolding attach_run_def by (rule loop_last_recorded) (simp add: attach_init_def)
  with assms(1) have "lastError ?s = Some (last (recorded ?s))"
    by (auto simp: last_recorded_def)
  with ex assms(2) have res: "\<exists>e. fst (attachVolume svc dev iid v n tr) =
      Some (WithMessage e ''Attaching volume failed'')"
    by (simp add: attachVolume_def Let_def Wrap_def)
  have "\<exists>rest. trace ?s = tr @ AttachVolumeCall (attach_input dev iid v)
                  (ec2_AttachVolume svc tr (attach_input dev iid v)) # rest"
    unfolding attach_run_def
    using assms(1) by (intro loop_first_event) (simp_all add: attach_init_def)
  with tr have first: "\<exists>rest. snd (attachVolume svc dev iid v n tr) =
                 tr @ AttachVolumeCall (attach_input dev iid v)
                        (ec2_AttachVolume svc tr (attach_input dev iid v)) # rest"
    by simp
  from ex obtain evs where evs: "trace ?s = tr @ evs"
    "sleeps evs = map (ForAttempt attach_backoff) [0 ..< nat (attempts ?s) - 1]"
    unfolding sleep_inv_def by blast
  have sl: "sleeps evs = map (\<lambda>k. min (5 * Second * 2 ^ k) (100 * Second)) [0 ..< nat n - 1]"
    using evs ex by (simp add: ForAttempt_attach_backoff)
  have sm: "sum_list (sleeps evs) =
      (\<Sum>k = 0 ..< nat n - 1. min (5 * Second * 2 ^ k) (100 * Second))"
    unfolding sl by (simp add: interv_sum_list_conv_sum_set_nat)
  have sf: "sleeps evs = map (ForAttempt attach_backoff) [0 ..< nat n - 1]"
    using evs ex by simp
  have hist: "snd (attachVolume svc dev iid v n tr) = tr @ evs"
    using tr evs by simp
  have "\<exists>evs. snd (attachVolume svc dev iid v n tr) = tr @ evs
             \<and> sleeps evs = map (ForAttempt attach_backoff) [0 ..< nat n - 1]
             \<and> sleeps evs = map (\<lambda>k. min (5 * Second * 2 ^ k) (100 * Second)) [0 ..< nat n - 1]
             \<and> sum_list (sleeps evs) =
                 (\<Sum>k = 0 ..< nat n - 1. min (5 * Second * 2 ^ k) (100 * Second))"
    by (intro exI [of _ evs] conjI hist sf sl sm)
  with ex res first show ?thesis by blast
qed

theorem attachVolume_poll_always_fails_witness:
  "(1::int) \<le> 3 \<and> \<not> already_attached free_volume ''i-1''
   \<and> poll_always_fails stuck_world ''/dev/xvdf'' free_volume
   \<and> attempts (attach_run stuck_world ''/dev/xvdf'' ''i-1'' free_volume 3 []) = 3
   \<and> sleeps (snd (attachVolume stuck_world ''/dev/xvdf'' ''i-1'' free_volume 3 [])) =
       [5 * Second, 10 * Second]
   \<and> sum_list (sleeps (snd (attachVolume stuck_world ''/dev/xvdf'' ''i-1'' free_volume 3 []))) =
       15 * Second"
proof -
  let ?run = "attachVolume stuck_world ''/dev/xvdf'' ''i-1'' free_volume 3 []"
  have a: "(1::int) \<le> 3" by simp
  have b: "\<not> already_attached free_volume ''i-1''"
    by (simp add: already_attached_def free_volume_def)
  have c: "poll_always_fails stuck_world ''/dev/xvdf'' free_volume"
    by (simp add: poll_always_fails_def confirm_def stuck_world_def answering_def
        attaching_volume_def VolumeAttachmentStateAttached_def Let_def)
  note t = attachVolume_poll_always_fails [OF a b c, where tr = "[]"]
  have n: "attempts (attach_run stuck_world ''/dev/xvdf'' ''i-1'' free_volume 3 []) = 3"
    using t by (rule conjunct1)
  have "\<exists>evs. snd ?run = [] @ evs
      \<and> sleeps evs = map (ForAttempt attach_backoff) [0 ..< nat 3 - 1]
      \<and> sleeps evs = map (\<lambda>k. min (5 * Second * 2 ^ k) (100 * Second)) [0 ..< nat 3 - 1]
      \<and> sum_list (sleeps evs) =
          (\<Sum>k = 0 ..< nat 3 - 1. min (5 * Second * 2 ^ k) (100 * Second))"
    by (rule t [THEN conjunct2, THEN conjunct2, THEN conjunct2, THEN conjunct2])
  then have "sleeps (snd ?run) =
      map (\<lambda>k. min (5 * Second * 2 ^ k) (100 * Second)) [0 ..< nat 3 - 1]"
    by auto
  moreover have "[0 ..< nat 3 - 1] = [0, Suc 0]"
    by (simp add: upt_rec)
  ultimately have s: "sleeps (snd ?run) = [5 * Second, 10 * Second]"
    by (simp add: Second_def)
  then have "sum_list (sleeps (snd ?run)) = 15 * Second"
    by simp
  with a b c n s show ?thesis by (intro conjI)
qed

text \<open>
  C10 as stated: a volume whose first attachment names another instance always gets
  a fresh attach request. It does not when maxAttempts is zero: for the volume held
  by i-2 and then by i-1, attachVolume for i-1 returns nil without any call.
\<close>

theorem attachVolume_first_attachment_counterexample:
  "map InstanceId (Attachments shared_volume) = [''i-2'', ''i-1'']
   \<and> attachVolume stuck_world ''/dev/xvdf'' ''i-1'' shared_volume 0 [] = (None, [])
   \<and> attach_results (snd (attachVolume stuck_world ''/dev/xvdf'' ''i-1'' shared_volume 0 [])) = []"
  by (simp add: shared_volume_def attachVolume_def already_attached_def attach_run_def
      attach_loop.simps attach_init_def Wrap_def)

text \<open>
  C10, amended: for maxAttempts of at least one, when the attachment list is not empty
  and its first attachment names another instance, whatever the later attachments
  name, the early return is not taken and the first call of the run is the attach
  request for the block device, the requesting instance and the volume.
\<close>

theorem attachVolume_first_attachment_only:
  assumes "Attachments v = a # as" and "InstanceId a \<noteq> iid" and "0 < n"
  shows "\<not> already_attached v iid
       \<and> (\<exists>rest. snd (attachVolume svc dev iid v n tr) =
             tr @ AttachVolumeCall (attach_input dev iid v)
                    (ec2_AttachVolume svc tr (attach_input dev iid v)) # rest)"
proof -
  have na: "\<not> already_attached v iid"
    using assms by (simp add: already_attached_def)
  have "\<exists>rest. trace (attach_run svc dev iid v n tr) =
           tr @ AttachVolumeCall (attach_input dev iid v)
                  (ec2_AttachVolume svc tr (attach_input dev iid v)) # rest"
    unfolding attach_run_def
    using assms(3) by (intro loop_first_event) (simp_all add: attach_init_def)
  then show ?thesis using na by (simp add: attachVolume_def Let_def)
qed

theorem attachVolume_first_attachment_only_witness:
  "Attachments shared_volume =
     [\<lparr>Device = ''/dev/sdf'', InstanceId = ''i-2'', State = ''attached''\<rparr>,
      \<lparr>Device = ''/dev/xvdf'', InstanceId = ''i-1'', State = ''attached''\<rparr>]
   \<and> (0::int) < 1
   \<and> attach_results (snd (attachVolume stuck_world ''/dev/xvdf'' ''i-1'' shared_volume 1 [])) = [None]"
proof -
  have a: "Attachments shared_volume =
     \<lparr>Device = ''/dev/sdf'', InstanceId = ''i-2'', State = ''attached''\<rparr>
       # [\<lparr>Device = ''/dev/xvdf'', InstanceId = ''i-1'', State = ''attached''\<rparr>]"
    by (simp add: shared_volume_def)
  have b: "InstanceId \<lparr>Device = ''/dev/sdf'', InstanceId = ''i-2'', State = ''attached''\<rparr> \<noteq> ''i-1''"
    by simp
  have c: "(0::int) < 1" by simp
  have r: "attach_results (snd (attachVolume stuck_world ''/dev/xvdf'' ''i-1'' shared_volume 1 [])) = [None]"
    by code_simp
  show ?thesis
    using a c r attachVolume_first_attachment_only [OF a b c, of stuck_world "''/dev/xvdf''" "[]"]
    by simp
qed

end
